theory Spec2Isabelle
  imports Main
begin

section \<open>JavaScript values\<close>

text \<open>
  The program reads the output of \<^verbatim>\<open>git\<close> and \<^verbatim>\<open>gh\<close> through \<^verbatim>\<open>JSON.parse\<close> and
  passes the parsed values on unchecked, so the model works on run-time values, not on
  the TypeScript annotations. \<open>jsval\<close> has the values \<^verbatim>\<open>JSON.parse\<close> produces, and
  \<^verbatim>\<open>undefined\<close> for a property that is not there. A number is an integer here (a JSON
  number with a fraction or beyond the safe integers is outside the model). A string
  is a \<open>string\<close> holding the text in UTF-8; an object is the list of its properties,
  where the first binding of a key counts.
\<close>

datatype jsval =
    Undefined
  | Null
  | Bool bool
  | Num int
  | Str string
  | Arr "jsval list"
  | Obj "(string \<times> jsval) list"

datatype error = TypeError | SyntaxError | ExecError

text \<open>\<^verbatim>\<open>!!v\<close>: the falsy values are undefined, null, false, 0 and the empty string.\<close>

fun truthy :: "jsval \<Rightarrow> bool" where
  "truthy Undefined = False"
| "truthy Null = False"
| "truthy (Bool b) = b"
| "truthy (Num n) = (n \<noteq> 0)"
| "truthy (Str s) = (s \<noteq> [])"
| "truthy (Arr xs) = True"
| "truthy (Obj kvs) = True"

text \<open>
  \<^verbatim>\<open>v.k\<close> for the property names this program reads: a TypeError on undefined and
  null, the property of an object (undefined when it has none of that name), and
  undefined on a boolean, a number, a string or an array, none of which has a
  property of one of these names.
\<close>

fun getProp :: "jsval \<Rightarrow> string \<Rightarrow> error + jsval" where
  "getProp Undefined k = Inl TypeError"
| "getProp Null k = Inl TypeError"
| "getProp (Obj kvs) k = Inr (case map_of kvs k of None \<Rightarrow> Undefined | Some v \<Rightarrow> v)"
| "getProp v k = Inr Undefined"

text \<open>\<^verbatim>\<open>v?.k\<close>: undefined on undefined and null, \<^verbatim>\<open>v.k\<close> otherwise; it never throws.\<close>

definition optProp :: "jsval \<Rightarrow> string \<Rightarrow> jsval" where
  "optProp v k = (case getProp v k of Inl e \<Rightarrow> Undefined | Inr x \<Rightarrow> x)"

text \<open>\<^verbatim>\<open>v || ""\<close>\<close>

definition orEmpty :: "jsval \<Rightarrow> jsval" where
  "orEmpty v = (if truthy v then v else Str [])"

text \<open>
  \<^verbatim>\<open>String.prototype.toUpperCase\<close> on the ASCII letters. What JavaScript does to
  characters outside ASCII is not modelled (their bytes stay as they are); no
  theorem below depends on it.
\<close>

definition toUpperChar :: "char \<Rightarrow> char" where
  "toUpperChar c =
     (case map_of (zip ''abcdefghijklmnopqrstuvwxyz'' ''ABCDEFGHIJKLMNOPQRSTUVWXYZ'') c of
        None \<Rightarrow> c
      | Some u \<Rightarrow> u)"

definition toUpperCase :: "string \<Rightarrow> string" where
  "toUpperCase s = map toUpperChar s"

text \<open>
  The method call \<^verbatim>\<open>v.toUpperCase()\<close>: only a string has the method; on any other
  value the call throws a TypeError.
\<close>

fun callToUpperCase :: "jsval \<Rightarrow> error + string" where
  "callToUpperCase (Str s) = Inr (toUpperCase s)"
| "callToUpperCase v = Inl TypeError"

text \<open>
  Decimal digits of a number, as a template literal and \<^verbatim>\<open>Array.prototype.join\<close>
  print an integer.
\<close>

definition digit_char :: "nat \<Rightarrow> char" where
  "digit_char n = ''0123456789'' ! n"

fun showNat :: "nat \<Rightarrow> string" where
  "showNat n =
     (if n < 10 then [digit_char n] else showNat (n div 10) @ [digit_char (n mod 10)])"

declare showNat.simps [simp del]

definition showInt :: "int \<Rightarrow> string" where
  "showInt i = (if i < 0 then CHR ''-'' # showNat (nat (- i)) else showNat (nat i))"

text \<open>\<^verbatim>\<open>parts.join(sep)\<close> on strings.\<close>

fun joinWith :: "string \<Rightarrow> string list \<Rightarrow> string" where
  "joinWith sep [] = []"
| "joinWith sep [x] = x"
| "joinWith sep (x # y # ys) = x @ sep @ joinWith sep (y # ys)"

text \<open>
  \<open>toStr v\<close> is the string a template literal \<^verbatim>\<open>`${v}`\<close> inserts. An array prints
  its elements joined with commas, where undefined and null print as nothing.
\<close>

fun toStr :: "jsval \<Rightarrow> string" where
  "toStr Undefined = ''undefined''"
| "toStr Null = ''null''"
| "toStr (Bool b) = (if b then ''true'' else ''false'')"
| "toStr (Num n) = showInt n"
| "toStr (Str s) = s"
| "toStr (Arr xs) =
     joinWith '','' (map (\<lambda>x. case x of Undefined \<Rightarrow> [] | Null \<Rightarrow> [] | _ \<Rightarrow> toStr x) xs)"
| "toStr (Obj kvs) = ''[object Object]''"

text \<open>An element of an array as \<^verbatim>\<open>join\<close> prints it.\<close>

definition joinElem :: "jsval \<Rightarrow> string" where
  "joinElem v = (case v of Undefined \<Rightarrow> [] | Null \<Rightarrow> [] | _ \<Rightarrow> toStr v)"

section \<open>Aggregating the check rollup\<close>

text \<open>\<^verbatim>\<open>interface CheckStatus\<close>. The field \<^verbatim>\<open>total\<close> is \<open>total_n\<close> here.\<close>

record CheckStatus =
  total_n :: nat
  pass :: nat
  fail :: nat
  pending :: nat

definition noChecks :: CheckStatus where
  "noChecks = \<lparr>total_n = 0, pass = 0, fail = 0, pending = 0\<rparr>"

text \<open>
  The body of the loop of \<^verbatim>\<open>parseChecks\<close> for one element of the rollup. The three
  properties are read in the order of the source; reading one from null throws, and so
  does \<^verbatim>\<open>toUpperCase\<close> on a conclusion or status that is truthy and no string.
\<close>

definition checkStep :: "CheckStatus \<Rightarrow> jsval \<Rightarrow> error + CheckStatus" where
  "checkStep checks c =
     (case getProp c ''conclusion'' of Inl e \<Rightarrow> Inl e | Inr cv \<Rightarrow>
      case callToUpperCase (orEmpty cv) of Inl e \<Rightarrow> Inl e | Inr conclusion \<Rightarrow>
      case getProp c ''status'' of Inl e \<Rightarrow> Inl e | Inr sv \<Rightarrow>
      case callToUpperCase (orEmpty sv) of Inl e \<Rightarrow> Inl e | Inr status \<Rightarrow>
      case getProp c ''name'' of Inl e \<Rightarrow> Inl e | Inr nv \<Rightarrow>
      let name = orEmpty nv in
      if \<not> truthy name \<and> conclusion = [] \<and> status = [] then Inr checks
      else
        let counted = checks\<lparr>total_n := total_n checks + 1\<rparr> in
        if conclusion = ''SUCCESS'' \<or> conclusion = ''NEUTRAL'' \<or> conclusion = ''SKIPPED''
        then Inr (counted\<lparr>pass := pass counted + 1\<rparr>)
        else if conclusion = ''FAILURE'' \<or> conclusion = ''TIMED_OUT''
                \<or> conclusion = ''CANCELLED'' \<or> conclusion = ''ACTION_REQUIRED''
        then Inr (counted\<lparr>fail := fail counted + 1\<rparr>)
        else if status = ''IN_PROGRESS'' \<or> status = ''QUEUED''
                \<or> status = ''PENDING'' \<or> status = ''WAITING''
        then Inr (counted\<lparr>pending := pending counted + 1\<rparr>)
        else if status = ''COMPLETED''
        then Inr (counted\<lparr>pass := pass counted + 1\<rparr>)
        else Inr (counted\<lparr>pending := pending counted + 1\<rparr>))"

fun parseChecks_loop :: "CheckStatus \<Rightarrow> jsval list \<Rightarrow> error + CheckStatus" where
  "parseChecks_loop checks [] = Inr checks"
| "parseChecks_loop checks (c # cs) =
     (case checkStep checks c of Inl e \<Rightarrow> Inl e | Inr checks' \<Rightarrow> parseChecks_loop checks' cs)"

definition parseChecks :: "jsval list \<Rightarrow> error + CheckStatus" where
  "parseChecks statusCheckRollup = parseChecks_loop noChecks statusCheckRollup"

text \<open>
  \<^verbatim>\<open>threads.filter((t) => !t.isResolved)\<close>: the callback reads a property of each
  element, which throws on null.
\<close>

fun filterUnresolved :: "jsval list \<Rightarrow> error + jsval list" where
  "filterUnresolved [] = Inr []"
| "filterUnresolved (t # ts) =
     (case getProp t ''isResolved'' of Inl e \<Rightarrow> Inl e | Inr r \<Rightarrow>
      case filterUnresolved ts of Inl e \<Rightarrow> Inl e | Inr us \<Rightarrow>
      Inr (if \<not> truthy r then t # us else us))"

definition countUnresolvedThreads :: "jsval list \<Rightarrow> error + nat" where
  "countUnresolvedThreads threads =
     (case filterUnresolved threads of Inl e \<Rightarrow> Inl e | Inr us \<Rightarrow> Inr (length us))"

section \<open>Formatting the status line\<close>

text \<open>
  \<^verbatim>\<open>interface PrInfo\<close>. The four fields taken from the response of \<^verbatim>\<open>gh\<close> hold
  whatever value the response has there.
\<close>

record PrInfo =
  number :: jsval
  title :: jsval
  url :: jsval
  state :: jsval
  checks :: CheckStatus
  unresolvedThreads :: nat

text \<open>The symbols of the status line, in UTF-8.\<close>

definition icon_merged :: string where
  "icon_merged = [CHR 0xF0, CHR 0x9F, CHR 0x9F, CHR 0xA3]"

definition icon_closed :: string where
  "icon_closed = [CHR 0xF0, CHR 0x9F, CHR 0x94, CHR 0xB4]"

definition icon_open :: string where
  "icon_open = [CHR 0xF0, CHR 0x9F, CHR 0x9F, CHR 0xA2]"

definition icon_failed :: string where
  "icon_failed = [CHR 0xE2, CHR 0x9D, CHR 0x8C]"

definition icon_pending :: string where
  "icon_pending = [CHR 0xE2, CHR 0x8F, CHR 0xB3]"

definition icon_passed :: string where
  "icon_passed = [CHR 0xE2, CHR 0x9C, CHR 0x85]"

definition icon_threads :: string where
  "icon_threads = [CHR 0xF0, CHR 0x9F, CHR 0x92, CHR 0xAC]"

definition separator :: string where
  "separator = [CHR '' '', CHR 0xC2, CHR 0xB7, CHR '' '']"

text \<open>
  \<^verbatim>\<open>formatStatus\<close>. \<open>parts\<close> is the array the source pushes to; its last element,
  \<^verbatim>\<open>pr.url\<close>, is no template literal and is printed by \<^verbatim>\<open>join\<close>.
\<close>

definition formatStatus :: "PrInfo \<Rightarrow> string" where
  "formatStatus pr =
     (let stateIcon =
            (if state pr = Str ''MERGED'' then icon_merged
             else if state pr = Str ''CLOSED'' then icon_closed
             else icon_open);
          parts0 = [stateIcon @ '' PR #'' @ toStr (number pr)];
          parts1 =
            (if total_n (checks pr) > 0 then
               (if fail (checks pr) > 0 then
                  parts0 @ [icon_failed @ '' '' @ showNat (fail (checks pr)) @ ''/''
                            @ showNat (total_n (checks pr)) @ '' checks failed'']
                else if pending (checks pr) > 0 then
                  parts0 @ [icon_pending @ '' '' @ showNat (pending (checks pr)) @ ''/''
                            @ showNat (total_n (checks pr)) @ '' checks pending'']
                else
                  parts0 @ [icon_passed @ '' '' @ showNat (total_n (checks pr))
                            @ '' checks passed''])
             else parts0);
          parts2 =
            (if unresolvedThreads pr > 0 then
               parts1 @ [icon_threads @ '' '' @ showNat (unresolvedThreads pr) @ '' unresolved'']
             else parts1);
          parts3 = parts2 @ [joinElem (url pr)]
      in joinWith separator parts3)"

section \<open>Recognising a pull-request URL\<close>

text \<open>
  \<^verbatim>\<open>PR_URL_RE = /https:\/\/github\.com\/([^/]+\/[^/]+)\/pull\/(\d+)/\<close>.
  \<open>matchAt s\<close> matches the expression at the start of \<open>s\<close>. Each \<^verbatim>\<open>[^/]+\<close> takes
  the longest run of characters other than a slash: the expression goes on with a
  slash, so giving back a character of the run never helps, and the run is the only
  candidate the backtracking matcher can succeed with. \<^verbatim>\<open>\d+\<close> ends the expression
  and takes the longest run of the digits 0 to 9.
\<close>

fun stripPrefix :: "string \<Rightarrow> string \<Rightarrow> string option" where
  "stripPrefix [] s = Some s"
| "stripPrefix (p # ps) [] = None"
| "stripPrefix (p # ps) (c # cs) = (if p = c then stripPrefix ps cs else None)"

definition notSlash :: "char \<Rightarrow> bool" where
  "notSlash c = (c \<noteq> CHR ''/'')"

definition isDigit :: "char \<Rightarrow> bool" where
  "isDigit c = (c \<in> set ''0123456789'')"

definition digitVal :: "char \<Rightarrow> nat" where
  "digitVal c = (case map_of (zip ''0123456789'' [0, 1, 2, 3, 4, 5, 6, 7, 8, 9]) c of
                   None \<Rightarrow> 0 | Some d \<Rightarrow> d)"

text \<open>
  \<^verbatim>\<open>parseInt(ds, 10)\<close> on a string of digits that is not empty. The value is
  exact, as it is in JavaScript below \<open>2 ^ 53\<close>.
\<close>

definition parseInt :: "string \<Rightarrow> nat" where
  "parseInt ds = foldl (\<lambda>n c. 10 * n + digitVal c) 0 ds"

text \<open>The result of \<^verbatim>\<open>parsePrUrl\<close>: \<^verbatim>\<open>{ url, repo, number }\<close>.\<close>

record PrUrl =
  m_url :: string
  m_repo :: string
  m_number :: nat

definition matchAt :: "string \<Rightarrow> PrUrl option" where
  "matchAt s =
     (case stripPrefix ''https://github.com/'' s of None \<Rightarrow> None | Some r1 \<Rightarrow>
      let seg1 = takeWhile notSlash r1 in
      if seg1 = [] then None else
      case stripPrefix ''/'' (dropWhile notSlash r1) of None \<Rightarrow> None | Some r2 \<Rightarrow>
      let seg2 = takeWhile notSlash r2 in
      if seg2 = [] then None else
      case stripPrefix ''/pull/'' (dropWhile notSlash r2) of None \<Rightarrow> None | Some r3 \<Rightarrow>
      let ds = takeWhile isDigit r3 in
      if ds = [] then None else
      Some \<lparr>m_url = ''https://github.com/'' @ seg1 @ ''/'' @ seg2 @ ''/pull/'' @ ds,
            m_repo = seg1 @ ''/'' @ seg2,
            m_number = parseInt ds\<rparr>)"

text \<open>
  \<^verbatim>\<open>text.match(PR_URL_RE)\<close> without the global flag: the match at the leftmost
  position that has one, or null.
\<close>

fun parsePrUrl :: "string \<Rightarrow> PrUrl option" where
  "parsePrUrl [] = None"
| "parsePrUrl (c # cs) =
     (case matchAt (c # cs) of Some m \<Rightarrow> Some m | None \<Rightarrow> parsePrUrl cs)"

section \<open>Querying git and GitHub\<close>

text \<open>
  The world outside the program, as one handler sees it.
  \<open>execSync w cmd dir\<close> is \<^verbatim>\<open>execSync(cmd, { cwd: dir, ... }).trim()\<close>: \<open>None\<close> when
  the call throws (the command fails or runs into its timeout), the trimmed output
  otherwise; \<open>dir\<close> is \<open>None\<close> where the source passes no \<^verbatim>\<open>cwd\<close>.
  \<open>JSON_parse w s\<close> is \<^verbatim>\<open>JSON.parse(s)\<close>, \<open>None\<close> when it throws a SyntaxError.
  No handler runs the same command in the same directory twice, so a function
  describes all the answers it can get.
\<close>

record world =
  execSync :: "string \<Rightarrow> string option \<Rightarrow> string option"
  JSON_parse :: "string \<Rightarrow> jsval option"

record RepoInfo =
  owner :: jsval
  name :: jsval

text \<open>
  Each query function is a \<^verbatim>\<open>try\<close> block with a \<^verbatim>\<open>catch\<close> that returns undefined.
  The block is modelled as a function \<open>..._try\<close> whose result is \<open>Inl\<close> of the
  exception when a statement throws, and the function itself catches it.
\<close>

definition run :: "world \<Rightarrow> string \<Rightarrow> string option \<Rightarrow> error + string" where
  "run w cmd dir = (case execSync w cmd dir of None \<Rightarrow> Inl ExecError | Some out \<Rightarrow> Inr out)"

definition parse :: "world \<Rightarrow> string \<Rightarrow> error + jsval" where
  "parse w s = (case JSON_parse w s of None \<Rightarrow> Inl SyntaxError | Some v \<Rightarrow> Inr v)"

definition getBranch_try :: "world \<Rightarrow> string \<Rightarrow> error + string" where
  "getBranch_try w cwd = run w ''git rev-parse --abbrev-ref HEAD'' (Some cwd)"

definition getBranch :: "world \<Rightarrow> string \<Rightarrow> string option" where
  "getBranch w cwd = (case getBranch_try w cwd of Inl e \<Rightarrow> None | Inr b \<Rightarrow> Some b)"

text \<open>\<^verbatim>\<open>getRepoInfo\<close>. \<^verbatim>\<open>repo.owner\<close> throws when the response is null.\<close>

definition getRepoInfo_try :: "world \<Rightarrow> string \<Rightarrow> error + RepoInfo option" where
  "getRepoInfo_try w cwd =
     (case run w ''gh repo view --json owner,name'' (Some cwd) of Inl e \<Rightarrow> Inl e | Inr json \<Rightarrow>
      case parse w json of Inl e \<Rightarrow> Inl e | Inr repo \<Rightarrow>
      case getProp repo ''owner'' of Inl e \<Rightarrow> Inl e | Inr repo_owner \<Rightarrow>
      if truthy (optProp repo_owner ''login'') \<and> truthy (optProp repo ''name'')
      then Inr (Some \<lparr>owner = optProp repo_owner ''login'', name = optProp repo ''name''\<rparr>)
      else Inr None)"

definition getRepoInfo :: "world \<Rightarrow> string \<Rightarrow> RepoInfo option" where
  "getRepoInfo w cwd = (case getRepoInfo_try w cwd of Inl e \<Rightarrow> None | Inr r \<Rightarrow> r)"

text \<open>The command of the review-thread query, with its three values inserted.\<close>

definition graphqlCommand :: "jsval \<Rightarrow> jsval \<Rightarrow> jsval \<Rightarrow> string" where
  "graphqlCommand repo_owner repo_name pr_number =
     ''gh api graphql -f query='' @ [CHR 0x27] @ ''{ repository(owner: '' @ [CHR 0x22]
     @ toStr repo_owner @ [CHR 0x22] @ '', name: '' @ [CHR 0x22] @ toStr repo_name
     @ [CHR 0x22] @ '') { pullRequest(number: '' @ toStr pr_number
     @ '') { reviewThreads(first: 100) { nodes { isResolved } } } } }'' @ [CHR 0x27]"

text \<open>\<^verbatim>\<open>data?.data?.repository?.pullRequest?.reviewThreads?.nodes\<close>\<close>

definition threadNodes :: "jsval \<Rightarrow> jsval" where
  "threadNodes data =
     optProp (optProp (optProp (optProp (optProp data ''data'') ''repository'')
       ''pullRequest'') ''reviewThreads'') ''nodes''"

text \<open>
  The inner \<^verbatim>\<open>try\<close> of \<^verbatim>\<open>getPrForBranch\<close> and \<^verbatim>\<open>getPrByNumber\<close>; its result is the
  value of \<^verbatim>\<open>unresolvedThreads\<close> after it, which stays 0 unless the answer holds an
  array of threads. The inner \<^verbatim>\<open>catch\<close> is empty, so an exception leaves the 0 too.
  Inside \<^verbatim>\<open>getPrByNumber\<close> the count is the inline \<^verbatim>\<open>threads.filter(...).length\<close>,
  the body of \<^verbatim>\<open>countUnresolvedThreads\<close>.
\<close>

definition queryThreads_try ::
    "world \<Rightarrow> string option \<Rightarrow> jsval \<Rightarrow> jsval \<Rightarrow> jsval \<Rightarrow> error + nat" where
  "queryThreads_try w dir repo_owner repo_name pr_number =
     (case run w (graphqlCommand repo_owner repo_name pr_number) dir of
        Inl e \<Rightarrow> Inl e
      | Inr gql \<Rightarrow>
     (case parse w gql of Inl e \<Rightarrow> Inl e | Inr data \<Rightarrow>
      case threadNodes data of
        Arr threads \<Rightarrow> countUnresolvedThreads threads
      | _ \<Rightarrow> Inr 0))"

definition queryThreads :: "world \<Rightarrow> string option \<Rightarrow> jsval \<Rightarrow> jsval \<Rightarrow> jsval \<Rightarrow> nat" where
  "queryThreads w dir repo_owner repo_name pr_number =
     (case queryThreads_try w dir repo_owner repo_name pr_number of Inl e \<Rightarrow> 0 | Inr n \<Rightarrow> n)"

text \<open>
  \<^verbatim>\<open>Array.isArray(pr.statusCheckRollup) ? parseChecks(pr.statusCheckRollup) : { ... }\<close>
\<close>

definition checksOf :: "jsval \<Rightarrow> error + CheckStatus" where
  "checksOf pr =
     (case optProp pr ''statusCheckRollup'' of
        Arr rollup \<Rightarrow> parseChecks rollup
      | _ \<Rightarrow> Inr noChecks)"

definition prViewCommand :: string where
  "prViewCommand = ''gh pr view --json number,title,url,state,statusCheckRollup''"

text \<open>
  \<^verbatim>\<open>getPrForBranch\<close>. \<^verbatim>\<open>pr.number\<close> throws when the response is null, and
  \<^verbatim>\<open>parseChecks\<close> may throw. Once \<^verbatim>\<open>pr.number\<close> has been read, no later property
  of \<^verbatim>\<open>pr\<close> throws.
\<close>

definition getPrForBranch_try ::
    "world \<Rightarrow> string \<Rightarrow> RepoInfo option \<Rightarrow> error + PrInfo option" where
  "getPrForBranch_try w cwd repo =
     (case run w prViewCommand (Some cwd) of Inl e \<Rightarrow> Inl e | Inr json \<Rightarrow>
      if json = [] then Inr None else
      case parse w json of Inl e \<Rightarrow> Inl e | Inr pr \<Rightarrow>
      case getProp pr ''number'' of Inl e \<Rightarrow> Inl e | Inr pr_number \<Rightarrow>
      if \<not> truthy pr_number \<or> \<not> truthy (optProp pr ''url'') then Inr None else
      case checksOf pr of Inl e \<Rightarrow> Inl e | Inr cs \<Rightarrow>
      let threads =
            (case repo of
               None \<Rightarrow> 0
             | Some r \<Rightarrow> queryThreads w (Some cwd) (owner r) (name r) pr_number)
      in Inr (Some \<lparr>number = pr_number, title = optProp pr ''title'', url = optProp pr ''url'',
                    state = optProp pr ''state'', checks = cs, unresolvedThreads = threads\<rparr>))"

definition getPrForBranch :: "world \<Rightarrow> string \<Rightarrow> RepoInfo option \<Rightarrow> PrInfo option" where
  "getPrForBranch w cwd repo =
     (case getPrForBranch_try w cwd repo of Inl e \<Rightarrow> None | Inr r \<Rightarrow> r)"

text \<open>\<^verbatim>\<open>repo.split("/")\<close>: the pieces between the slashes; there is always one.\<close>

fun splitSlash :: "string \<Rightarrow> string list" where
  "splitSlash [] = [[]]"
| "splitSlash (c # cs) =
     (if c = CHR ''/'' then [] # splitSlash cs
      else (case splitSlash cs of [] \<Rightarrow> [[c]] | p # ps \<Rightarrow> (c # p) # ps))"

text \<open>
  \<^verbatim>\<open>getPrByNumber\<close>. \<^verbatim>\<open>const [owner, name] = repo.split("/")\<close> takes the first two
  pieces; \<^verbatim>\<open>name\<close> is undefined when there is only one.
\<close>

definition getPrByNumber_try :: "world \<Rightarrow> string \<Rightarrow> nat \<Rightarrow> error + PrInfo option" where
  "getPrByNumber_try w repo prNumber =
     (case run w (''gh pr view '' @ showNat prNumber @ '' --repo '' @ repo
            @ '' --json number,title,url,state,statusCheckRollup'') None of
        Inl e \<Rightarrow> Inl e
      | Inr json \<Rightarrow>
      if json = [] then Inr None else
      case parse w json of Inl e \<Rightarrow> Inl e | Inr pr \<Rightarrow>
      case getProp pr ''number'' of Inl e \<Rightarrow> Inl e | Inr pr_number \<Rightarrow>
      if \<not> truthy pr_number \<or> \<not> truthy (optProp pr ''url'') then Inr None else
      case checksOf pr of Inl e \<Rightarrow> Inl e | Inr cs \<Rightarrow>
      let pieces = splitSlash repo;
          repo_owner = Str (hd pieces);
          repo_name = (case tl pieces of [] \<Rightarrow> Undefined | p # ps \<Rightarrow> Str p);
          threads =
            (if truthy repo_owner \<and> truthy repo_name
             then queryThreads w None repo_owner repo_name pr_number
             else 0)
      in Inr (Some \<lparr>number = pr_number, title = optProp pr ''title'', url = optProp pr ''url'',
                    state = optProp pr ''state'', checks = cs, unresolvedThreads = threads\<rparr>))"

definition getPrByNumber :: "world \<Rightarrow> string \<Rightarrow> nat \<Rightarrow> PrInfo option" where
  "getPrByNumber w repo prNumber =
     (case getPrByNumber_try w repo prNumber of Inl e \<Rightarrow> None | Inr r \<Rightarrow> r)"

section \<open>The selector\<close>

text \<open>
  \<^verbatim>\<open>ExtensionContext\<close>, as far as the extension reads it: the working directory and
  the status bar, which is named by a number. \<open>statusBar\<close> below holds, for each
  status bar and key, the text \<^verbatim>\<open>setStatus\<close> has put there, \<open>None\<close> when it is cleared.
\<close>

record Ctx =
  cwd :: string
  ui :: nat

text \<open>The pin: \<^verbatim>\<open>{ repo: string; number: number }\<close>.\<close>

record Pin =
  pin_repo :: string
  pin_number :: nat

text \<open>
  The variables of the closure of the extension, and the status bars of the host.
  \<open>timer\<close> says whether an interval is registered.
\<close>

record Selector =
  timer :: bool
  lastBranch :: "string option"
  lastPr :: "PrInfo option"
  cachedRepo :: "RepoInfo option"
  pinnedPr :: "Pin option"
  latestCtx :: "Ctx option"
  statusBar :: "nat \<Rightarrow> string \<Rightarrow> string option"

definition STATUS_KEY :: string where
  "STATUS_KEY = ''pr-status''"

definition setStatus :: "nat \<Rightarrow> string \<Rightarrow> string option \<Rightarrow> Selector \<Rightarrow> Selector" where
  "setStatus u key val s = s\<lparr>statusBar := (statusBar s)(u := (statusBar s u)(key := val))\<rparr>"

definition hasActiveBranchPr :: "Selector \<Rightarrow> bool" where
  "hasActiveBranchPr s = (case lastPr s of None \<Rightarrow> False | Some pr \<Rightarrow> state pr = Str ''OPEN'')"

definition showStatus :: "PrInfo option \<Rightarrow> nat \<Rightarrow> Selector \<Rightarrow> Selector" where
  "showStatus pr u s =
     setStatus u STATUS_KEY (case pr of None \<Rightarrow> None | Some p \<Rightarrow> Some (formatStatus p))
       (s\<lparr>lastPr := pr\<rparr>)"

text \<open>
  A branch name counts when it is there and not empty (\<^verbatim>\<open>branch && ...\<close>) and is not
  \<^verbatim>\<open>"HEAD"\<close>. The two tests of \<^verbatim>\<open>update\<close>, \<^verbatim>\<open>branch && branch !== "HEAD"\<close> and
  \<^verbatim>\<open>!branch || branch === "HEAD"\<close>, are this and its negation.
\<close>

definition usableBranch :: "string option \<Rightarrow> bool" where
  "usableBranch branch = (case branch of None \<Rightarrow> False | Some b \<Rightarrow> b \<noteq> [] \<and> b \<noteq> ''HEAD'')"

text \<open>
  \<^verbatim>\<open>update(cwd, ui)\<close>. Its parameters are \<open>dir\<close> and \<open>u\<close> here, as \<open>cwd\<close> and \<open>ui\<close>
  name the fields of \<open>Ctx\<close>. The first case is the pinned path, which ends with
  \<^verbatim>\<open>return\<close>; the second is the detection by branch.
\<close>

definition update :: "world \<Rightarrow> string \<Rightarrow> nat \<Rightarrow> Selector \<Rightarrow> Selector" where
  "update w dir u s =
     (case pinnedPr s of
        Some pin \<Rightarrow>
          (let pr = getPrByNumber w (pin_repo pin) (pin_number pin);
               s1 = showStatus pr u s
           in case pr of
                None \<Rightarrow> s1
              | Some p \<Rightarrow>
                  (let branch = getBranch w dir;
                       s2 = (if usableBranch branch \<and> branch \<noteq> lastBranch s1
                             then s1\<lparr>lastBranch := branch\<rparr> else s1)
                   in if usableBranch branch then
                        (let s3 = (if cachedRepo s2 = None
                                   then s2\<lparr>cachedRepo := getRepoInfo w dir\<rparr> else s2);
                             branchPr = getPrForBranch w dir (cachedRepo s3)
                         in case branchPr of
                              None \<Rightarrow> s3
                            | Some bp \<Rightarrow>
                                if state bp = Str ''OPEN''
                                then showStatus (Some bp) u (s3\<lparr>pinnedPr := None\<rparr>)
                                else s3)
                      else s2))
      | None \<Rightarrow>
          (let branch = getBranch w dir;
               s1 = (if branch \<noteq> lastBranch s
                     then s\<lparr>lastBranch := branch, lastPr := None\<rparr> else s)
           in if \<not> usableBranch branch then showStatus None u s1
              else
                (let s2 = (if cachedRepo s1 = None
                           then s1\<lparr>cachedRepo := getRepoInfo w dir\<rparr> else s1);
                     pr = getPrForBranch w dir (cachedRepo s2)
                 in showStatus pr u s2)))"

text \<open>
  \<^verbatim>\<open>pinnedPr?.repo === parsed.repo && pinnedPr?.number === parsed.number\<close>, which is
  false when there is no pin.
\<close>

definition samePin :: "Pin option \<Rightarrow> PrUrl \<Rightarrow> bool" where
  "samePin pinned parsed =
     (case pinned of
        None \<Rightarrow> False
      | Some pin \<Rightarrow> pin_repo pin = m_repo parsed \<and> pin_number pin = m_number parsed)"

definition tryPinFromUrl :: "world \<Rightarrow> string \<Rightarrow> Ctx \<Rightarrow> Selector \<Rightarrow> Selector" where
  "tryPinFromUrl w txt ctx s =
     (case parsePrUrl txt of
        None \<Rightarrow> s
      | Some parsed \<Rightarrow>
          if samePin (pinnedPr s) parsed then s
          else if hasActiveBranchPr s then s
          else
            (let s1 = s\<lparr>pinnedPr := Some \<lparr>pin_repo = m_repo parsed, pin_number = m_number parsed\<rparr>,
                        latestCtx := Some ctx\<rparr>;
                 pr = getPrByNumber w (m_repo parsed) (m_number parsed)
             in showStatus pr (ui ctx) s1))"

text \<open>
  The handlers the extension registers, and the callback of its interval. What a
  handler returns to the host (\<^verbatim>\<open>{ action: "continue" }\<close>) is the same on every path
  and is left out.
\<close>

definition onInput :: "world \<Rightarrow> string \<Rightarrow> string \<Rightarrow> Ctx \<Rightarrow> Selector \<Rightarrow> Selector" where
  "onInput w source txt ctx s =
     (if source = ''extension'' then s
      else tryPinFromUrl w txt ctx (s\<lparr>latestCtx := Some ctx\<rparr>))"

definition onBeforeAgentStart :: "world \<Rightarrow> string \<Rightarrow> Ctx \<Rightarrow> Selector \<Rightarrow> Selector" where
  "onBeforeAgentStart w prompt ctx s = tryPinFromUrl w prompt ctx (s\<lparr>latestCtx := Some ctx\<rparr>)"

definition pollTick :: "world \<Rightarrow> Selector \<Rightarrow> Selector" where
  "pollTick w s = (case latestCtx s of None \<Rightarrow> s | Some ctx \<Rightarrow> update w (cwd ctx) (ui ctx) s)"

definition onSessionStart :: "world \<Rightarrow> Ctx \<Rightarrow> Selector \<Rightarrow> Selector" where
  "onSessionStart w ctx s = (update w (cwd ctx) (ui ctx) (s\<lparr>latestCtx := Some ctx\<rparr>))\<lparr>timer := True\<rparr>"

definition onSessionSwitch :: "world \<Rightarrow> Ctx \<Rightarrow> Selector \<Rightarrow> Selector" where
  "onSessionSwitch w ctx s =
     update w (cwd ctx) (ui ctx)
       (s\<lparr>lastBranch := None, lastPr := None, cachedRepo := None, pinnedPr := None,
          latestCtx := Some ctx\<rparr>)"

definition onSessionShutdown :: "Selector \<Rightarrow> Selector" where
  "onSessionShutdown s = (if timer s then s\<lparr>timer := False\<rparr> else s)"

text \<open>The closure as the extension creates it, with nothing on any status bar.\<close>

definition initial :: Selector where
  "initial = \<lparr>timer = False, lastBranch = None, lastPr = None, cachedRepo = None,
              pinnedPr = None, latestCtx = None, statusBar = (\<lambda>u key. None)\<rparr>"

section \<open>Vocabulary of the properties\<close>

text \<open>
  A check record, as the rollup of \<^verbatim>\<open>gh pr view\<close> has them: an object whose name,
  conclusion and status are each a string, null or missing.
\<close>

fun stringOrNone :: "jsval \<Rightarrow> bool" where
  "stringOrNone Undefined = True"
| "stringOrNone Null = True"
| "stringOrNone (Str s) = True"
| "stringOrNone v = False"

fun isCheckRecord :: "jsval \<Rightarrow> bool" where
  "isCheckRecord (Obj kvs) =
     (stringOrNone (optProp (Obj kvs) ''name'')
      \<and> stringOrNone (optProp (Obj kvs) ''conclusion'')
      \<and> stringOrNone (optProp (Obj kvs) ''status''))"
| "isCheckRecord v = False"

text \<open>A record carries a field when it has a string that is not empty there.\<close>

definition carries :: "jsval \<Rightarrow> string \<Rightarrow> bool" where
  "carries c k = (case optProp c k of Str s \<Rightarrow> s \<noteq> [] | _ \<Rightarrow> False)"

definition hasSignal :: "jsval \<Rightarrow> bool" where
  "hasSignal c = (carries c ''name'' \<or> carries c ''conclusion'' \<or> carries c ''status'')"










text \<open>The segments of the status line.\<close>

definition stateMarker :: "jsval \<Rightarrow> string" where
  "stateMarker st =
     (if st = Str ''MERGED'' then icon_merged
      else if st = Str ''CLOSED'' then icon_closed
      else icon_open)"

definition headSegment :: "PrInfo \<Rightarrow> string" where
  "headSegment pr = stateMarker (state pr) @ '' PR #'' @ toStr (number pr)"

definition failedSegment :: "CheckStatus \<Rightarrow> string" where
  "failedSegment c =
     icon_failed @ '' '' @ showNat (fail c) @ ''/'' @ showNat (total_n c) @ '' checks failed''"

definition pendingSegment :: "CheckStatus \<Rightarrow> string" where
  "pendingSegment c =
     icon_pending @ '' '' @ showNat (pending c) @ ''/'' @ showNat (total_n c) @ '' checks pending''"

definition passedSegment :: "CheckStatus \<Rightarrow> string" where
  "passedSegment c = icon_passed @ '' '' @ showNat (total_n c) @ '' checks passed''"

definition checksSegment :: "CheckStatus \<Rightarrow> string list" where
  "checksSegment c =
     (if total_n c = 0 then []
      else if fail c > 0 then [failedSegment c]
      else if pending c > 0 then [pendingSegment c]
      else [passedSegment c])"

definition threadsSegment :: "nat \<Rightarrow> string list" where
  "threadsSegment n =
     (if n = 0 then [] else [icon_threads @ '' '' @ showNat n @ '' unresolved''])"


text \<open>
  Worlds for the examples: a table of the commands that answer, with their directory
  and output, and a table of the texts that parse.
\<close>

definition worldOf :: "((string \<times> string option) \<times> string) list \<Rightarrow> (string \<times> jsval) list \<Rightarrow> world" where
  "worldOf outputs docs =
     \<lparr>execSync = (\<lambda>cmd dir. map_of outputs (cmd, dir)), JSON_parse = map_of docs\<rparr>"

definition pr42Text :: string where
  \<open>pr42Text = ''{"number":42,"title":"Test PR","url":"https://github.com/owner/repo/pull/42","state":"OPEN","statusCheckRollup":[{"name":"ci","conclusion":"SUCCESS","status":"COMPLETED"}]}''\<close>

definition pr42Json :: jsval where
  "pr42Json =
     Obj [(''number'', Num 42), (''title'', Str ''Test PR''),
          (''url'', Str ''https://github.com/owner/repo/pull/42''), (''state'', Str ''OPEN''),
          (''statusCheckRollup'',
             Arr [Obj [(''name'', Str ''ci''), (''conclusion'', Str ''SUCCESS''),
                       (''status'', Str ''COMPLETED'')]])]"

definition pr42 :: PrInfo where
  "pr42 = \<lparr>number = Num 42, title = Str ''Test PR'',
            url = Str ''https://github.com/owner/repo/pull/42'', state = Str ''OPEN'',
            checks = \<lparr>total_n = 1, pass = 1, fail = 0, pending = 0\<rparr>, unresolvedThreads = 0\<rparr>"



definition ownerRepo :: RepoInfo where
  "ownerRepo = \<lparr>owner = Str ''owner'', name = Str ''repo''\<rparr>"

text \<open>
  The repository coordinates a tick passes to the query by branch: the cached ones, or
  the ones it looks up when none are cached.
\<close>

definition repoFor :: "world \<Rightarrow> string \<Rightarrow> Selector \<Rightarrow> RepoInfo option" where
  "repoFor w dir s = (case cachedRepo s of None \<Rightarrow> getRepoInfo w dir | Some r \<Rightarrow> Some r)"

text \<open>What the status bar shows for the result of a query.\<close>

definition shown :: "PrInfo option \<Rightarrow> string option" where
  "shown pr = (case pr of None \<Rightarrow> None | Some p \<Rightarrow> Some (formatStatus p))"

text \<open>A run of poll ticks, each in the world of its moment.\<close>

definition ticks :: "world list \<Rightarrow> Selector \<Rightarrow> Selector" where
  "ticks ws s = foldl (\<lambda>s' w. pollTick w s') s ws"

text \<open>
  The worlds of the selector examples. In \<open>worldPinned\<close> only the query for pull
  request 42 of owner/repo answers. In \<open>worldBranch\<close> the directory is on the branch
  feature of owner/repo, whose pull request 7 is open with one of two review threads
  unresolved; \<open>worldBoth\<close> has the answers of both.
\<close>

definition pr42Command :: string where
  "pr42Command = ''gh pr view 42 --repo owner/repo --json number,title,url,state,statusCheckRollup''"

definition pr7Text :: string where
  \<open>pr7Text = ''{"number":7,"title":"Feature","url":"https://github.com/owner/repo/pull/7","state":"OPEN","statusCheckRollup":[]}''\<close>

definition pr7Json :: jsval where
  "pr7Json =
     Obj [(''number'', Num 7), (''title'', Str ''Feature''),
          (''url'', Str ''https://github.com/owner/repo/pull/7''), (''state'', Str ''OPEN''),
          (''statusCheckRollup'', Arr [])]"

definition pr7 :: PrInfo where
  "pr7 = \<lparr>number = Num 7, title = Str ''Feature'',
           url = Str ''https://github.com/owner/repo/pull/7'', state = Str ''OPEN'',
           checks = \<lparr>total_n = 0, pass = 0, fail = 0, pending = 0\<rparr>, unresolvedThreads = 1\<rparr>"

definition repoText :: string where
  \<open>repoText = ''{"name":"repo","owner":{"login":"owner"}}''\<close>

definition repoJson :: jsval where
  "repoJson = Obj [(''name'', Str ''repo''), (''owner'', Obj [(''login'', Str ''owner'')])]"

definition threadsText :: string where
  \<open>threadsText = ''{"data":{"repository":{"pullRequest":{"reviewThreads":{"nodes":[{"isResolved":false},{"isResolved":true}]}}}}}''\<close>

definition threadsJson :: jsval where
  "threadsJson =
     Obj [(''data'', Obj [(''repository'', Obj [(''pullRequest'', Obj [(''reviewThreads'',
       Obj [(''nodes'', Arr [Obj [(''isResolved'', Bool False)],
                             Obj [(''isResolved'', Bool True)]])])])])])]"

definition exampleDocs :: "(string \<times> jsval) list" where
  "exampleDocs = [(pr42Text, pr42Json), (pr7Text, pr7Json), (repoText, repoJson),
                  (threadsText, threadsJson)]"

definition branchAnswers :: "((string \<times> string option) \<times> string) list" where
  "branchAnswers =
     [((''git rev-parse --abbrev-ref HEAD'', Some ''/work''), ''feature''),
      ((''gh repo view --json owner,name'', Some ''/work''), repoText),
      ((prViewCommand, Some ''/work''), pr7Text),
      ((graphqlCommand (Str ''owner'') (Str ''repo'') (Num 7), Some ''/work''), threadsText)]"

definition worldPinned :: world where
  "worldPinned = worldOf [((pr42Command, None), pr42Text)] exampleDocs"

definition worldBranch :: world where
  "worldBranch = worldOf branchAnswers exampleDocs"

definition worldBoth :: world where
  "worldBoth = worldOf (((pr42Command, None), pr42Text) # branchAnswers) exampleDocs"

definition workCtx :: Ctx where
  "workCtx = \<lparr>cwd = ''/work'', ui = 0\<rparr>"

definition pin42 :: Pin where
  "pin42 = \<lparr>pin_repo = ''owner/repo'', pin_number = 42\<rparr>"


section \<open>The properties\<close>

subsection \<open>The tally\<close>

lemma toUpperCase_Nil_iff: "toUpperCase s = [] \<longleftrightarrow> s = []"
  by (simp add: toUpperCase_def)

lemma upper_field_of_record:
  assumes "stringOrNone v"
  shows "\<exists>u. callToUpperCase (orEmpty v) = Inr u \<and> (u \<noteq> [] \<longleftrightarrow> (\<exists>s. v = Str s \<and> s \<noteq> []))"
  using assms by (cases v) (simp_all add: orEmpty_def toUpperCase_Nil_iff toUpperCase_def)

lemma name_of_record:
  assumes "stringOrNone v"
  shows "truthy (orEmpty v) \<longleftrightarrow> (\<exists>s. v = Str s \<and> s \<noteq> [])"
  using assms by (cases v) (simp_all add: orEmpty_def)

lemma carries_iff: "carries c k \<longleftrightarrow> (\<exists>s. optProp c k = Str s \<and> s \<noteq> [])"
  by (cases "optProp c k") (simp_all add: carries_def)

text \<open>
  One step on a check record never throws; it adds one to the total and to exactly
  one bucket when the record has a signal and leaves the tally alone otherwise.
\<close>

lemma checkStep_record:
  assumes "isCheckRecord c"
  shows "\<exists>t. checkStep acc c = Inr t
    \<and> total_n t = total_n acc + (if hasSignal c then 1 else 0)
    \<and> pass t + fail t + pending t
        = pass acc + fail acc + pending acc + (if hasSignal c then 1 else 0)"
proof -
  from assms obtain kvs where c: "c = Obj kvs"
    by (cases c) simp_all
  define cv where "cv = optProp c ''conclusion''"
  define sv where "sv = optProp c ''status''"
  define nv where "nv = optProp c ''name''"
  have ok: "stringOrNone cv" "stringOrNone sv" "stringOrNone nv"
    using assms by (simp_all add: c cv_def sv_def nv_def)
  have props: "getProp c ''conclusion'' = Inr cv" "getProp c ''status'' = Inr sv"
    "getProp c ''name'' = Inr nv"
    by (simp_all add: c cv_def sv_def nv_def optProp_def)
  obtain cu where cu: "callToUpperCase (orEmpty cv) = Inr cu"
    and cu_ne: "cu \<noteq> [] \<longleftrightarrow> (\<exists>s. cv = Str s \<and> s \<noteq> [])"
    using upper_field_of_record [OF ok(1)] by blast
  obtain su where su: "callToUpperCase (orEmpty sv) = Inr su"
    and su_ne: "su \<noteq> [] \<longleftrightarrow> (\<exists>s. sv = Str s \<and> s \<noteq> [])"
    using upper_field_of_record [OF ok(2)] by blast
  have nm: "truthy (orEmpty nv) \<longleftrightarrow> (\<exists>s. nv = Str s \<and> s \<noteq> [])"
    by (rule name_of_record [OF ok(3)])
  have "hasSignal c \<longleftrightarrow>
      (\<exists>s. nv = Str s \<and> s \<noteq> []) \<or> (\<exists>s. cv = Str s \<and> s \<noteq> []) \<or> (\<exists>s. sv = Str s \<and> s \<noteq> [])"
    by (simp add: hasSignal_def carries_iff cv_def sv_def nv_def)
  then have sig: "hasSignal c \<longleftrightarrow> truthy (orEmpty nv) \<or> cu \<noteq> [] \<or> su \<noteq> []"
    by (simp only: cu_ne su_ne nm)
  show ?thesis
  proof (cases "hasSignal c")
    case False
    with sig have "checkStep acc c = Inr acc"
      by (simp add: checkStep_def props cu su)
    with False show ?thesis by simp
  next
    case True
    with sig have ng: "\<not> (\<not> truthy (orEmpty nv) \<and> cu = [] \<and> su = [])"
      by blast
    show ?thesis
      using True ng by (simp add: checkStep_def props cu su Let_def)
  qed
qed

lemma parseChecks_loop_records:
  assumes "\<forall>c\<in>set xs. isCheckRecord c"
  shows "\<exists>t. parseChecks_loop acc xs = Inr t
    \<and> total_n t = total_n acc + length (filter hasSignal xs)
    \<and> pass t + fail t + pending t
        = pass acc + fail acc + pending acc + length (filter hasSignal xs)"
  using assms
proof (induction xs arbitrary: acc)
  case Nil
  then show ?case by simp
next
  case (Cons c cs)
  then have "isCheckRecord c" by simp
  from checkStep_record [OF this, of acc] obtain t1 where
    t1: "checkStep acc c = Inr t1"
    and tot1: "total_n t1 = total_n acc + (if hasSignal c then 1 else 0)"
    and sum1: "pass t1 + fail t1 + pending t1
        = pass acc + fail acc + pending acc + (if hasSignal c then 1 else 0)"
    by blast
  from Cons have "\<forall>c\<in>set cs. isCheckRecord c" by simp
  from Cons.IH [OF this, of t1] obtain t where
    t: "parseChecks_loop t1 cs = Inr t"
    and tot: "total_n t = total_n t1 + length (filter hasSignal cs)"
    and sum: "pass t + fail t + pending t
        = pass t1 + fail t1 + pending t1 + length (filter hasSignal cs)"
    by blast
  have "parseChecks_loop acc (c # cs) = Inr t"
    by (simp add: t1 t)
  moreover have "total_n t = total_n acc + length (filter hasSignal (c # cs))"
    using tot tot1 by simp
  moreover have "pass t + fail t + pending t
      = pass acc + fail acc + pending acc + length (filter hasSignal (c # cs))"
    using sum sum1 by simp
  ultimately show ?case by blast
qed

text \<open>
  Whatever the rollup holds, a tally that \<open>parseChecks\<close> returns is the sum of its
  three buckets.
\<close>

lemma checkStep_keeps_sum:
  assumes "checkStep acc c = Inr t" and "pass acc + fail acc + pending acc = total_n acc"
  shows "pass t + fail t + pending t = total_n t"
proof -
  obtain cv where cv: "getProp c ''conclusion'' = Inr cv"
    using assms(1) by (cases "getProp c ''conclusion''") (simp_all add: checkStep_def)
  obtain cu where cu: "callToUpperCase (orEmpty cv) = Inr cu"
    using assms(1) by (cases "callToUpperCase (orEmpty cv)") (simp_all add: checkStep_def cv)
  obtain sv where sv: "getProp c ''status'' = Inr sv"
    using assms(1) by (cases "getProp c ''status''") (simp_all add: checkStep_def cv cu)
  obtain su where su: "callToUpperCase (orEmpty sv) = Inr su"
    using assms(1)
    by (cases "callToUpperCase (orEmpty sv)") (simp_all add: checkStep_def cv cu sv)
  obtain nv where nv: "getProp c ''name'' = Inr nv"
    using assms(1) by (cases "getProp c ''name''") (simp_all add: checkStep_def cv cu sv su)
  have "Inr t = checkStep acc c"
    using assms(1) by simp
  also have "\<dots> = Inr
         (if \<not> truthy (orEmpty nv) \<and> cu = [] \<and> su = [] then acc
          else if cu = ''SUCCESS'' \<or> cu = ''NEUTRAL'' \<or> cu = ''SKIPPED''
          then acc\<lparr>total_n := total_n acc + 1, pass := pass acc + 1\<rparr>
          else if cu = ''FAILURE'' \<or> cu = ''TIMED_OUT'' \<or> cu = ''CANCELLED''
                  \<or> cu = ''ACTION_REQUIRED''
          then acc\<lparr>total_n := total_n acc + 1, fail := fail acc + 1\<rparr>
          else if su = ''IN_PROGRESS'' \<or> su = ''QUEUED'' \<or> su = ''PENDING'' \<or> su = ''WAITING''
          then acc\<lparr>total_n := total_n acc + 1, pending := pending acc + 1\<rparr>
          else if su = ''COMPLETED''
          then acc\<lparr>total_n := total_n acc + 1, pass := pass acc + 1\<rparr>
          else acc\<lparr>total_n := total_n acc + 1, pending := pending acc + 1\<rparr>)"
    by (simp add: checkStep_def cv cu sv su nv Let_def)
  finally show ?thesis
    using assms(2) by simp
qed

lemma parseChecks_loop_keeps_sum:
  assumes "parseChecks_loop acc xs = Inr t" and "pass acc + fail acc + pending acc = total_n acc"
  shows "pass t + fail t + pending t = total_n t"
  using assms
proof (induction xs arbitrary: acc)
  case Nil
  then show ?case by simp
next
  case (Cons c cs)
  then obtain acc' where step: "checkStep acc c = Inr acc'"
    and rest: "parseChecks_loop acc' cs = Inr t"
    by (auto split: sum.splits)
  from checkStep_keeps_sum [OF step Cons.prems(2)] Cons.IH [OF rest] show ?case
    by simp
qed

lemma parseChecks_sum:
  "parseChecks xs = Inr t \<Longrightarrow> pass t + fail t + pending t = total_n t"
  using parseChecks_loop_keeps_sum [of noChecks xs t]
  by (simp add: parseChecks_def noChecks_def)

text \<open>
  C3. For every sequence of check records, \<open>parseChecks\<close> returns a tally with
  \<open>pass + fail + pending = total\<close>, and the total is the number of records that
  carry a name, a conclusion or a status: a ghost record, which carries none of the
  three, is not counted.
\<close>

theorem parseChecks_tally:
  assumes "\<forall>c\<in>set xs. isCheckRecord c"
  shows "\<exists>t. parseChecks xs = Inr t
    \<and> pass t + fail t + pending t = total_n t
    \<and> total_n t = length (filter hasSignal xs)"
proof -
  from parseChecks_loop_records [OF assms, of noChecks] obtain t where
    "parseChecks_loop noChecks xs = Inr t"
    "total_n t = total_n noChecks + length (filter hasSignal xs)"
    "pass t + fail t + pending t
        = pass noChecks + fail noChecks + pending noChecks + length (filter hasSignal xs)"
    by blast
  then show ?thesis
    by (simp add: parseChecks_def noChecks_def)
qed

theorem parseChecks_tally_witness:
  "\<exists>t. parseChecks
       [Obj [(''conclusion'', Str ''SUCCESS''), (''name'', Str ''ci''), (''status'', Str ''COMPLETED'')],
        Obj [(''conclusion'', Null), (''name'', Null), (''status'', Null)],
        Obj [(''conclusion'', Str []), (''name'', Str []), (''status'', Str [])],
        Obj [(''conclusion'', Str []), (''status'', Str ''IN_PROGRESS'')],
        Obj [(''conclusion'', Str ''failure''), (''status'', Str ''completed'')]] = Inr t
     \<and> pass t + fail t + pending t = total_n t \<and> total_n t = 3
     \<and> t = \<lparr>total_n = 3, pass = 1, fail = 1, pending = 1\<rparr>"
proof -
  let ?xs = "[Obj [(''conclusion'', Str ''SUCCESS''), (''name'', Str ''ci''), (''status'', Str ''COMPLETED'')],
      Obj [(''conclusion'', Null), (''name'', Null), (''status'', Null)],
      Obj [(''conclusion'', Str []), (''name'', Str []), (''status'', Str [])],
      Obj [(''conclusion'', Str []), (''status'', Str ''IN_PROGRESS'')],
      Obj [(''conclusion'', Str ''failure''), (''status'', Str ''completed'')]]"
  have records: "\<forall>c\<in>set ?xs. isCheckRecord c"
    by (simp add: optProp_def)
  have counted: "length (filter hasSignal ?xs) = 3"
    by (simp add: hasSignal_def carries_def optProp_def)
  from parseChecks_tally [OF records] obtain t where
    t: "parseChecks ?xs = Inr t" and inv: "pass t + fail t + pending t = total_n t"
    and tot: "total_n t = length (filter hasSignal ?xs)"
    by blast
  have "parseChecks ?xs = Inr \<lparr>total_n = 3, pass = 1, fail = 1, pending = 1\<rparr>"
    by (simp add: parseChecks_def noChecks_def checkStep_def orEmpty_def toUpperCase_def
        toUpperChar_def)
  with t have "t = \<lparr>total_n = 3, pass = 1, fail = 1, pending = 1\<rparr>"
    by simp
  with t inv tot counted show ?thesis
    by (intro exI [of _ t]) simp
qed

subsection \<open>Conclusion before status\<close>







subsection \<open>The status line\<close>

lemma joinWith_snoc:
  "joinWith sep (xs @ [u]) = concat (map (\<lambda>x. x @ sep) xs) @ u"
  by (induction sep xs rule: joinWith.induct) simp_all

lemma formatStatus_parts:
  "formatStatus pr =
     joinWith separator
       ((headSegment pr # checksSegment (checks pr) @ threadsSegment (unresolvedThreads pr))
        @ [joinElem (url pr)])"
  by (simp add: formatStatus_def Let_def headSegment_def stateMarker_def checksSegment_def
      threadsSegment_def failedSegment_def pendingSegment_def passedSegment_def)

text \<open>The status line, written out: every segment before the URL ends with the separator.\<close>

lemma formatStatus_shape:
  "formatStatus pr =
     concat (map (\<lambda>seg. seg @ separator)
       (headSegment pr # checksSegment (checks pr) @ threadsSegment (unresolvedThreads pr)))
     @ joinElem (url pr)"
  unfolding formatStatus_parts by (rule joinWith_snoc)

text \<open>
  C5. The status line is, in this order: the state marker with "PR #" and the number;
  when the total of the checks is not 0, one segment for the checks, which is the
  failed count if a check failed, else the pending count if one is pending, else the
  passed count; a segment for the unresolved threads when there is one; the URL.
  The separator stands between them. For the tally 4, 4, 0, 0 and no unresolved
  thread the line is the marker, " PR #", the number, the separator, the passed
  segment "4 checks passed", the separator and the URL.
\<close>

theorem formatStatus_segments:
  "formatStatus pr =
     concat (map (\<lambda>seg. seg @ separator)
       (headSegment pr # checksSegment (checks pr) @ threadsSegment (unresolvedThreads pr)))
     @ joinElem (url pr)
   \<and> (checks pr = \<lparr>total_n = 4, pass = 4, fail = 0, pending = 0\<rparr> \<and> unresolvedThreads pr = 0
      \<longrightarrow> formatStatus pr =
            stateMarker (state pr) @ '' PR #'' @ toStr (number pr) @ separator
            @ icon_passed @ '' 4 checks passed'' @ separator @ joinElem (url pr))"
proof -
  note shape = formatStatus_shape [of pr]
  have four: "showNat 4 = ''4''"
    by (simp add: showNat.simps digit_char_def)
  show ?thesis
  proof (intro conjI impI)
    show "formatStatus pr =
     concat (map (\<lambda>seg. seg @ separator)
       (headSegment pr # checksSegment (checks pr) @ threadsSegment (unresolvedThreads pr)))
     @ joinElem (url pr)"
      by (rule shape)
  next
    assume "checks pr = \<lparr>total_n = 4, pass = 4, fail = 0, pending = 0\<rparr> \<and> unresolvedThreads pr = 0"
    then show "formatStatus pr =
            stateMarker (state pr) @ '' PR #'' @ toStr (number pr) @ separator
            @ icon_passed @ '' 4 checks passed'' @ separator @ joinElem (url pr)"
      unfolding shape
      by (simp add: checksSegment_def threadsSegment_def passedSegment_def headSegment_def four)
  qed
qed

theorem formatStatus_segments_witness:
  "formatStatus \<lparr>number = Num 42, title = Str ''Test PR'',
       url = Str ''https://github.com/owner/repo/pull/42'', state = Str ''OPEN'',
       checks = \<lparr>total_n = 4, pass = 4, fail = 0, pending = 0\<rparr>, unresolvedThreads = 0\<rparr>
   = icon_open @ '' PR #42'' @ separator @ icon_passed @ '' 4 checks passed'' @ separator
     @ ''https://github.com/owner/repo/pull/42''"
proof -
  have "showInt 42 = ''42''"
    by (simp add: showInt_def showNat.simps digit_char_def)
  then show ?thesis
    using formatStatus_segments [of "\<lparr>number = Num 42, title = Str ''Test PR'',
       url = Str ''https://github.com/owner/repo/pull/42'', state = Str ''OPEN'',
       checks = \<lparr>total_n = 4, pass = 4, fail = 0, pending = 0\<rparr>, unresolvedThreads = 0\<rparr>",
       THEN conjunct2]
    by (simp add: stateMarker_def joinElem_def)
qed

text \<open>
  C9. The status line starts with the marker of a merged pull request exactly when
  the state is the string MERGED, with the marker of a closed one exactly when it is
  CLOSED, and with the marker of an open one in every other case: for any other
  string (DRAFT, the empty string, merged in lower case) and for a state that is no
  string at all.
\<close>

theorem formatStatus_marker:
  "(take 4 (formatStatus pr) = icon_merged \<longleftrightarrow> state pr = Str ''MERGED'')
   \<and> (take 4 (formatStatus pr) = icon_closed \<longleftrightarrow> state pr = Str ''CLOSED'')
   \<and> (take 4 (formatStatus pr) = icon_open
        \<longleftrightarrow> state pr \<noteq> Str ''MERGED'' \<and> state pr \<noteq> Str ''CLOSED'')"
proof -
  obtain rest where "formatStatus pr = stateMarker (state pr) @ rest"
    using formatStatus_shape [of pr] by (simp add: headSegment_def)
  moreover have "length (stateMarker (state pr)) = 4"
    by (simp add: stateMarker_def icon_merged_def icon_closed_def icon_open_def)
  ultimately have "take 4 (formatStatus pr) = stateMarker (state pr)"
    by simp
  then show ?thesis
    by (simp add: stateMarker_def icon_merged_def icon_closed_def icon_open_def)
qed

theorem formatStatus_marker_witness:
  "take 4 (formatStatus \<lparr>number = Num 1, title = Null, url = Str ''u'', state = Str ''DRAFT'',
       checks = noChecks, unresolvedThreads = 0\<rparr>) = icon_open
   \<and> take 4 (formatStatus \<lparr>number = Num 1, title = Null, url = Str ''u'', state = Str [],
       checks = noChecks, unresolvedThreads = 0\<rparr>) = icon_open
   \<and> take 4 (formatStatus \<lparr>number = Num 1, title = Null, url = Str ''u'', state = Str ''merged'',
       checks = noChecks, unresolvedThreads = 0\<rparr>) = icon_open
   \<and> take 4 (formatStatus \<lparr>number = Num 1, title = Null, url = Str ''u'', state = Str ''MERGED'',
       checks = noChecks, unresolvedThreads = 0\<rparr>) = icon_merged
   \<and> take 4 (formatStatus \<lparr>number = Num 1, title = Null, url = Str ''u'', state = Str ''CLOSED'',
       checks = noChecks, unresolvedThreads = 0\<rparr>) = icon_closed
   \<and> icon_open \<noteq> icon_merged \<and> icon_open \<noteq> icon_closed \<and> icon_merged \<noteq> icon_closed"
  using
    formatStatus_marker [of "\<lparr>number = Num 1, title = Null, url = Str ''u'', state = Str ''DRAFT'',
       checks = noChecks, unresolvedThreads = 0\<rparr>"]
    formatStatus_marker [of "\<lparr>number = Num 1, title = Null, url = Str ''u'', state = Str [],
       checks = noChecks, unresolvedThreads = 0\<rparr>"]
    formatStatus_marker [of "\<lparr>number = Num 1, title = Null, url = Str ''u'', state = Str ''merged'',
       checks = noChecks, unresolvedThreads = 0\<rparr>"]
    formatStatus_marker [of "\<lparr>number = Num 1, title = Null, url = Str ''u'', state = Str ''MERGED'',
       checks = noChecks, unresolvedThreads = 0\<rparr>"]
    formatStatus_marker [of "\<lparr>number = Num 1, title = Null, url = Str ''u'', state = Str ''CLOSED'',
       checks = noChecks, unresolvedThreads = 0\<rparr>"]
  by (simp add: icon_open_def icon_merged_def icon_closed_def)


subsection \<open>The URL parser\<close>

text \<open>Positions without a match are skipped.\<close>

lemma parsePrUrl_skip:
  assumes "\<forall>i<length pre. matchAt (drop i (pre @ s)) = None"
  shows "parsePrUrl (pre @ s) = parsePrUrl s"
  using assms
proof (induction pre)
  case Nil
  then show ?case by simp
next
  case (Cons c pre)
  from Cons.prems have "matchAt (drop 0 ((c # pre) @ s)) = None"
    by (metis length_greater_0_conv list.distinct(1))
  then have here: "matchAt (c # pre @ s) = None" by simp
  have "\<forall>i<length pre. matchAt (drop i (pre @ s)) = None"
  proof (intro allI impI)
    fix i assume "i < length pre"
    then have "Suc i < length (c # pre)" by simp
    with Cons.prems have "matchAt (drop (Suc i) ((c # pre) @ s)) = None" by blast
    then show "matchAt (drop i (pre @ s)) = None" by simp
  qed
  with Cons.IH have "parsePrUrl (pre @ s) = parsePrUrl s" by blast
  with here show ?case by simp
qed

lemma takeWhile_digits_42:
  assumes "post = [] \<or> \<not> isDigit (hd post)"
  shows "takeWhile isDigit (''42'' @ post) = ''42''"
  using assms by (cases post) (simp_all add: isDigit_def)

lemma matchAt_example:
  assumes "post = [] \<or> \<not> isDigit (hd post)"
  shows "matchAt (''https://github.com/owner/repo/pull/42'' @ post)
    = Some \<lparr>m_url = ''https://github.com/owner/repo/pull/42'', m_repo = ''owner/repo'',
            m_number = 42\<rparr>"
proof -
  have "takeWhile isDigit (CHR ''4'' # CHR ''2'' # post) = ''42''"
    using takeWhile_digits_42 [OF assms] by simp
  then show ?thesis
    by (simp add: matchAt_def notSlash_def parseInt_def digitVal_def)
qed

text \<open>
  C7. The parser returns the leftmost match and reads the longest run of digits. So a
  text that holds \<^verbatim>\<open>https://github.com/owner/repo/pull/42\<close>
  gives the repository owner/repo and the number 42 when no match starts before that
  URL and no digit follows it; prose around the URL does no harm. The text
  \<^verbatim>\<open>https://github.com/owner/repo/issues/42\<close> has no match.
\<close>

theorem parsePrUrl_leftmost:
  assumes "\<forall>i<length pre. matchAt (drop i (pre @ ''https://github.com/owner/repo/pull/42'' @ post)) = None"
    and "post = [] \<or> \<not> isDigit (hd post)"
  shows "parsePrUrl (pre @ ''https://github.com/owner/repo/pull/42'' @ post)
      = Some \<lparr>m_url = ''https://github.com/owner/repo/pull/42'', m_repo = ''owner/repo'',
              m_number = 42\<rparr>
    \<and> parsePrUrl ''https://github.com/owner/repo/issues/42'' = None"
proof -
  have "parsePrUrl (pre @ ''https://github.com/owner/repo/pull/42'' @ post)
      = parsePrUrl (''https://github.com/owner/repo/pull/42'' @ post)"
    by (rule parsePrUrl_skip [OF assms(1)])
  also have "\<dots> = Some \<lparr>m_url = ''https://github.com/owner/repo/pull/42'', m_repo = ''owner/repo'',
              m_number = 42\<rparr>"
    using matchAt_example [OF assms(2)] by simp
  finally have first: "parsePrUrl (pre @ ''https://github.com/owner/repo/pull/42'' @ post)
      = Some \<lparr>m_url = ''https://github.com/owner/repo/pull/42'', m_repo = ''owner/repo'',
              m_number = 42\<rparr>" .
  have "parsePrUrl ''https://github.com/owner/repo/issues/42'' = None"
    by (simp add: matchAt_def notSlash_def isDigit_def)
  with first show ?thesis by simp
qed

theorem parsePrUrl_leftmost_witness:
  "parsePrUrl ''lets continue this PR: https://github.com/owner/repo/pull/42 please''
     = Some \<lparr>m_url = ''https://github.com/owner/repo/pull/42'', m_repo = ''owner/repo'',
             m_number = 42\<rparr>
   \<and> parsePrUrl ''https://github.com/owner/repo/issues/42'' = None"
proof -
  let ?pre = "''lets continue this PR: ''"
  let ?post = "'' please''"
  have "list_all (\<lambda>i. matchAt (drop i (?pre @ ''https://github.com/owner/repo/pull/42'' @ ?post)) = None)
      [0..<23]"
    by (simp add: upt_conv_Cons matchAt_def)
  then have before: "\<forall>i<length ?pre.
      matchAt (drop i (?pre @ ''https://github.com/owner/repo/pull/42'' @ ?post)) = None"
    by (simp add: list_all_iff)
  have after: "?post = [] \<or> \<not> isDigit (hd ?post)"
    by (simp add: isDigit_def)
  from parsePrUrl_leftmost [OF before after] show ?thesis
    by simp
qed

text \<open>
  Without the two conditions the result can be another one: a text can hold the URL
  and still give the pull request of an earlier URL, which matches first, or a longer
  number, when a digit follows.
\<close>

theorem parsePrUrl_first_match_counterexample:
  "''https://github.com/a/b/pull/1 https://github.com/owner/repo/pull/42''
     = ''https://github.com/a/b/pull/1 '' @ ''https://github.com/owner/repo/pull/42'' @ []
   \<and> parsePrUrl ''https://github.com/a/b/pull/1 https://github.com/owner/repo/pull/42''
     = Some \<lparr>m_url = ''https://github.com/a/b/pull/1'', m_repo = ''a/b'', m_number = 1\<rparr>
   \<and> parsePrUrl ''https://github.com/a/b/pull/1 https://github.com/owner/repo/pull/42''
     \<noteq> Some \<lparr>m_url = ''https://github.com/owner/repo/pull/42'', m_repo = ''owner/repo'',
             m_number = 42\<rparr>
   \<and> ''https://github.com/owner/repo/pull/421''
     = [] @ ''https://github.com/owner/repo/pull/42'' @ ''1''
   \<and> parsePrUrl ''https://github.com/owner/repo/pull/421''
     = Some \<lparr>m_url = ''https://github.com/owner/repo/pull/421'', m_repo = ''owner/repo'',
             m_number = 421\<rparr>"
  by (simp add: matchAt_def notSlash_def isDigit_def parseInt_def digitVal_def)

subsection \<open>The query for the pull request of the branch\<close>








lemma getPrForBranch_primary:
  assumes "execSync w prViewCommand (Some dir) = Some json" "json \<noteq> []"
    "JSON_parse w json = Some pr"
    "truthy (optProp pr ''number'')" "truthy (optProp pr ''url'')" "checksOf pr = Inr cs"
  shows "getPrForBranch w dir repo =
    Some \<lparr>number = optProp pr ''number'', title = optProp pr ''title'', url = optProp pr ''url'',
          state = optProp pr ''state'', checks = cs,
          unresolvedThreads =
            (case repo of None \<Rightarrow> 0
             | Some r \<Rightarrow> queryThreads w (Some dir) (owner r) (name r) (optProp pr ''number''))\<rparr>"
proof -
  have "getProp pr ''number'' = Inr (optProp pr ''number'')"
    using assms(4) by (cases pr) (simp_all add: optProp_def)
  with assms show ?thesis
    by (simp add: getPrForBranch_def getPrForBranch_try_def run_def parse_def)
qed




subsection \<open>The example worlds\<close>

lemma getPrByNumber_primary:
  assumes "execSync w (''gh pr view '' @ showNat n @ '' --repo '' @ repo
            @ '' --json number,title,url,state,statusCheckRollup'') None = Some json"
    "json \<noteq> []" "JSON_parse w json = Some pr"
    "truthy (optProp pr ''number'')" "truthy (optProp pr ''url'')" "checksOf pr = Inr cs"
    "splitSlash repo = [a, b]" "a \<noteq> []" "b \<noteq> []"
  shows "getPrByNumber w repo n =
    Some \<lparr>number = optProp pr ''number'', title = optProp pr ''title'', url = optProp pr ''url'',
          state = optProp pr ''state'', checks = cs,
          unresolvedThreads = queryThreads w None (Str a) (Str b) (optProp pr ''number'')\<rparr>"
proof -
  have "getProp pr ''number'' = Inr (optProp pr ''number'')"
    using assms(4) by (cases pr) (simp_all add: optProp_def)
  with assms show ?thesis
    by (simp add: getPrByNumber_def getPrByNumber_try_def run_def parse_def)
qed

lemma texts_differ:
  "pr42Text \<noteq> []" "pr7Text \<noteq> []" "pr7Text \<noteq> pr42Text" "repoText \<noteq> pr42Text"
  "repoText \<noteq> pr7Text" "threadsText \<noteq> pr42Text" "threadsText \<noteq> pr7Text"
  "threadsText \<noteq> repoText"
  by (simp_all add: pr42Text_def pr7Text_def repoText_def threadsText_def)

lemma exampleDocs_parse:
  "map_of exampleDocs pr42Text = Some pr42Json"
  "map_of exampleDocs pr7Text = Some pr7Json"
  "map_of exampleDocs repoText = Some repoJson"
  "map_of exampleDocs threadsText = Some threadsJson"
  using texts_differ by (simp_all add: exampleDocs_def)

lemma pr42Command_eq:
  "''gh pr view '' @ showNat 42 @ '' --repo '' @ ''owner/repo''
     @ '' --json number,title,url,state,statusCheckRollup'' = pr42Command"
  by (simp add: pr42Command_def showNat.simps digit_char_def)

lemma pr42Json_fields:
  "optProp pr42Json ''number'' = Num 42" "optProp pr42Json ''title'' = Str ''Test PR''"
  "optProp pr42Json ''url'' = Str ''https://github.com/owner/repo/pull/42''"
  "optProp pr42Json ''state'' = Str ''OPEN''"
  "checksOf pr42Json = Inr \<lparr>total_n = 1, pass = 1, fail = 0, pending = 0\<rparr>"
  by (simp_all add: checksOf_def pr42Json_def optProp_def parseChecks_def
      noChecks_def checkStep_def orEmpty_def toUpperCase_def toUpperChar_def)

lemma pr7Json_fields:
  "optProp pr7Json ''number'' = Num 7" "optProp pr7Json ''title'' = Str ''Feature''"
  "optProp pr7Json ''url'' = Str ''https://github.com/owner/repo/pull/7''"
  "optProp pr7Json ''state'' = Str ''OPEN''"
  "checksOf pr7Json = Inr \<lparr>total_n = 0, pass = 0, fail = 0, pending = 0\<rparr>"
  by (simp_all add: checksOf_def pr7Json_def optProp_def parseChecks_def noChecks_def)

lemma commands_differ:
  "graphqlCommand a b c \<noteq> pr42Command"
  "graphqlCommand a b c \<noteq> prViewCommand"
  "graphqlCommand a b c \<noteq> ''git rev-parse --abbrev-ref HEAD''"
  "graphqlCommand a b c \<noteq> ''gh repo view --json owner,name''"
  "pr42Command \<noteq> prViewCommand"
  "pr42Command \<noteq> ''git rev-parse --abbrev-ref HEAD''"
  "pr42Command \<noteq> ''gh repo view --json owner,name''"
  "prViewCommand \<noteq> ''git rev-parse --abbrev-ref HEAD''"
  "prViewCommand \<noteq> ''gh repo view --json owner,name''"
  by (simp_all add: graphqlCommand_def pr42Command_def prViewCommand_def)

lemma queryThreads_no_answer:
  "execSync w (graphqlCommand a b c) dir = None \<Longrightarrow> queryThreads w dir a b c = 0"
  by (simp add: queryThreads_def queryThreads_try_def run_def)

lemma split_owner_repo: "splitSlash ''owner/repo'' = [''owner'', ''repo'']"
  by simp


lemma branchAnswers_lookup:
  "map_of branchAnswers (''git rev-parse --abbrev-ref HEAD'', Some ''/work'') = Some ''feature''"
  "map_of branchAnswers (''gh repo view --json owner,name'', Some ''/work'') = Some repoText"
  "map_of branchAnswers (prViewCommand, Some ''/work'') = Some pr7Text"
  "map_of branchAnswers (graphqlCommand (Str ''owner'') (Str ''repo'') (Num 7), Some ''/work'')
     = Some threadsText"
  "map_of branchAnswers (c, None) = None"
  using commands_differ by (simp_all add: branchAnswers_def)

lemma threads_example: "countUnresolvedThreads
    [Obj [(''isResolved'', Bool False)], Obj [(''isResolved'', Bool True)]] = Inr 1"
  by (simp add: countUnresolvedThreads_def)

lemma threadNodes_example: "threadNodes threadsJson
    = Arr [Obj [(''isResolved'', Bool False)], Obj [(''isResolved'', Bool True)]]"
  by (simp add: threadNodes_def threadsJson_def optProp_def)

lemma getPrForBranch_example:
  assumes "execSync w = (\<lambda>cmd dir. map_of (extra @ branchAnswers) (cmd, dir))"
    and "\<forall>k\<in>fst ` set extra. snd k = None"
    and "JSON_parse w = map_of exampleDocs"
  shows "getPrForBranch w ''/work'' (Some ownerRepo) = Some pr7"
    and "getBranch w ''/work'' = Some ''feature''"
    and "getRepoInfo w ''/work'' = Some ownerRepo"
proof -
  have skip: "execSync w c (Some d) = map_of branchAnswers (c, Some d)" for c d
  proof -
    have "(c, Some d) \<notin> fst ` set extra"
      using assms(2) by force
    then have "map_of extra (c, Some d) = None"
      by (simp add: map_of_eq_None_iff)
    then show ?thesis by (simp add: assms(1) map_add_def)
  qed
  have threads: "queryThreads w (Some ''/work'') (Str ''owner'') (Str ''repo'') (Num 7) = 1"
    by (simp add: queryThreads_def queryThreads_try_def run_def parse_def assms(3) skip
        branchAnswers_lookup exampleDocs_parse threadNodes_example threads_example)
  have exec: "execSync w prViewCommand (Some ''/work'') = Some pr7Text"
    by (simp add: skip branchAnswers_lookup)
  have "JSON_parse w pr7Text = Some pr7Json"
    by (simp add: assms(3) exampleDocs_parse)
  from getPrForBranch_primary [OF exec texts_differ(2) this _ _ pr7Json_fields(5)] threads
  show "getPrForBranch w ''/work'' (Some ownerRepo) = Some pr7"
    by (simp add: pr7Json_fields pr7_def ownerRepo_def)
  show "getBranch w ''/work'' = Some ''feature''"
    by (simp add: getBranch_def getBranch_try_def run_def skip branchAnswers_lookup)
  show "getRepoInfo w ''/work'' = Some ownerRepo"
    by (simp add: getRepoInfo_def getRepoInfo_try_def run_def parse_def assms(3) skip
        branchAnswers_lookup exampleDocs_parse repoJson_def optProp_def ownerRepo_def)
qed

lemma worldBranch_queries:
  "getPrForBranch worldBranch ''/work'' (Some ownerRepo) = Some pr7"
  "getBranch worldBranch ''/work'' = Some ''feature''"
  "getRepoInfo worldBranch ''/work'' = Some ownerRepo"
  "getPrByNumber worldBranch ''owner/repo'' 42 = None"
proof -
  have "execSync worldBranch = (\<lambda>cmd dir. map_of ([] @ branchAnswers) (cmd, dir))"
    "\<forall>k\<in>fst ` set ([] :: ((string \<times> string option) \<times> string) list). snd k = None"
    "JSON_parse worldBranch = map_of exampleDocs"
    by (simp_all add: worldBranch_def worldOf_def)
  from getPrForBranch_example [OF this]
  show "getPrForBranch worldBranch ''/work'' (Some ownerRepo) = Some pr7"
    "getBranch worldBranch ''/work'' = Some ''feature''"
    "getRepoInfo worldBranch ''/work'' = Some ownerRepo"
    by simp_all
  show "getPrByNumber worldBranch ''owner/repo'' 42 = None"
    by (simp add: getPrByNumber_def getPrByNumber_try_def run_def worldBranch_def worldOf_def
        branchAnswers_lookup)
qed

lemma worldBoth_queries:
  "getPrForBranch worldBoth ''/work'' (Some ownerRepo) = Some pr7"
  "getBranch worldBoth ''/work'' = Some ''feature''"
  "getRepoInfo worldBoth ''/work'' = Some ownerRepo"
  "getPrByNumber worldBoth ''owner/repo'' 42 = Some pr42"
proof -
  have "execSync worldBoth = (\<lambda>cmd dir. map_of ([((pr42Command, None), pr42Text)] @ branchAnswers) (cmd, dir))"
    "\<forall>k\<in>fst ` set [((pr42Command, None :: string option), pr42Text)]. snd k = None"
    "JSON_parse worldBoth = map_of exampleDocs"
    by (simp_all add: worldBoth_def worldOf_def)
  from getPrForBranch_example [OF this]
  show "getPrForBranch worldBoth ''/work'' (Some ownerRepo) = Some pr7"
    "getBranch worldBoth ''/work'' = Some ''feature''"
    "getRepoInfo worldBoth ''/work'' = Some ownerRepo"
    by simp_all
  have exec: "execSync worldBoth (''gh pr view '' @ showNat 42 @ '' --repo '' @ ''owner/repo''
            @ '' --json number,title,url,state,statusCheckRollup'') None = Some pr42Text"
    unfolding pr42Command_eq by (simp add: worldBoth_def worldOf_def)
  have "queryThreads worldBoth None (Str ''owner'') (Str ''repo'') (Num 42) = 0"
    by (rule queryThreads_no_answer)
       (simp add: worldBoth_def worldOf_def commands_differ branchAnswers_lookup)
  with getPrByNumber_primary [OF exec texts_differ(1) _ _ _ pr42Json_fields(5) split_owner_repo]
  show "getPrByNumber worldBoth ''owner/repo'' 42 = Some pr42"
    by (simp add: worldBoth_def worldOf_def exampleDocs_parse pr42Json_fields pr42_def)
qed

subsection \<open>The selector\<close>

lemma showStatus_fields:
  "lastPr (showStatus pr u s) = pr"
  "statusBar (showStatus pr u s) u STATUS_KEY = shown pr"
  "pinnedPr (showStatus pr u s) = pinnedPr s"
  "lastBranch (showStatus pr u s) = lastBranch s"
  "cachedRepo (showStatus pr u s) = cachedRepo s"
  "latestCtx (showStatus pr u s) = latestCtx s"
  "timer (showStatus pr u s) = timer s"
  by (simp_all add: showStatus_def setStatus_def shown_def)

text \<open>The callback of the interval is \<open>update\<close> in the latest context.\<close>

lemma pollTick_update:
  "latestCtx s = Some ctx \<Longrightarrow> pollTick w s = update w (cwd ctx) (ui ctx) s"
  by (simp add: pollTick_def)



text \<open>
  While the last pull request is open, an input changes nothing but the latest context.
\<close>

lemma onInput_while_open:
  assumes "hasActiveBranchPr s"
  shows "onInput w source txt ctx s = (if source = ''extension'' then s else s\<lparr>latestCtx := Some ctx\<rparr>)"
proof -
  from assms have "hasActiveBranchPr (s\<lparr>latestCtx := Some ctx\<rparr>)"
    by (simp add: hasActiveBranchPr_def)
  then have "tryPinFromUrl w txt ctx (s\<lparr>latestCtx := Some ctx\<rparr>) = s\<lparr>latestCtx := Some ctx\<rparr>"
    by (simp add: tryPinFromUrl_def split: option.splits)
  then show ?thesis
    by (simp add: onInput_def)
qed

text \<open>
  The last pull request is the pinned one while a pin is set. So a pin whose pull
  request is open stays when an input names another pull request.
\<close>

lemma open_pin_keeps_other_url_out:
  assumes "pinnedPr s = Some pin" and "lastPr s = Some pr" and "state pr = Str ''OPEN''"
    and "parsePrUrl txt = Some parsed" and "\<not> samePin (pinnedPr s) parsed"
  shows "pinnedPr (onInput w source txt ctx s) = Some pin"
proof -
  from assms(2,3) have "hasActiveBranchPr s"
    by (simp add: hasActiveBranchPr_def)
  from onInput_while_open [OF this] assms(1) show ?thesis
    by simp
qed

text \<open>
  C4. An input with a pull-request URL that arrives while the selected pull request is
  open changes neither the pin nor the last pull request nor any status bar (nor the
  branch and the cached repository).
\<close>

theorem input_ignored_while_open:
  assumes "parsePrUrl txt = Some parsed"
    and "lastPr s = Some pr"
    and "state pr = Str ''OPEN''"
  shows "pinnedPr (onInput w source txt ctx s) = pinnedPr s
    \<and> lastPr (onInput w source txt ctx s) = lastPr s
    \<and> statusBar (onInput w source txt ctx s) = statusBar s
    \<and> lastBranch (onInput w source txt ctx s) = lastBranch s
    \<and> cachedRepo (onInput w source txt ctx s) = cachedRepo s"
proof -
  from assms(2,3) have "hasActiveBranchPr s"
    by (simp add: hasActiveBranchPr_def)
  from onInput_while_open [OF this] show ?thesis
    by simp
qed

theorem input_ignored_while_open_witness:
  "pinnedPr (onInput worldPinned ''interactive'' ''see https://github.com/owner/repo/pull/42''
       workCtx (showStatus (Some pr7) 0 initial)) = None
   \<and> lastPr (onInput worldPinned ''interactive'' ''see https://github.com/owner/repo/pull/42''
       workCtx (showStatus (Some pr7) 0 initial)) = Some pr7
   \<and> statusBar (onInput worldPinned ''interactive'' ''see https://github.com/owner/repo/pull/42''
       workCtx (showStatus (Some pr7) 0 initial)) 0 STATUS_KEY = Some (formatStatus pr7)"
proof -
  let ?parsed = "\<lparr>m_url = ''https://github.com/owner/repo/pull/42'', m_repo = ''owner/repo'',
      m_number = 42\<rparr>"
  let ?s = "showStatus (Some pr7) 0 initial"
  have url: "parsePrUrl ''see https://github.com/owner/repo/pull/42'' = Some ?parsed"
    by (simp add: matchAt_def notSlash_def isDigit_def parseInt_def digitVal_def)
  have last: "lastPr ?s = Some pr7"
    by (simp add: showStatus_fields)
  have "open": "state pr7 = Str ''OPEN''"
    by (simp add: pr7_def)
  from input_ignored_while_open [OF url last "open", of worldPinned "''interactive''" workCtx]
  show ?thesis
    by (simp add: showStatus_fields shown_def initial_def)
qed

text \<open>
  C2. A tick with a pin, where the query for the pinned pull request finds it and the
  branch (there, not empty and not HEAD) has an open pull request of its own: after
  the tick the pin is gone, and the pull request of the branch is the last one and the
  one shown.
\<close>

theorem tick_drops_pin:
  assumes "pinnedPr s = Some pin"
    and "getPrByNumber w (pin_repo pin) (pin_number pin) = Some p"
    and "getBranch w dir = Some b" and "b \<noteq> []" and "b \<noteq> ''HEAD''"
    and "getPrForBranch w dir (repoFor w dir s) = Some bp"
    and "state bp = Str ''OPEN''"
  shows "pinnedPr (update w dir u s) = None
    \<and> lastPr (update w dir u s) = Some bp
    \<and> statusBar (update w dir u s) u STATUS_KEY = Some (formatStatus bp)"
proof -
  have usable: "usableBranch (getBranch w dir)"
    using assms(3-5) by (simp add: usableBranch_def)
  show ?thesis
  proof (cases "cachedRepo s")
    case None
    with assms(6) have "getPrForBranch w dir (getRepoInfo w dir) = Some bp"
      by (simp add: repoFor_def)
    with None assms(1,2,7) usable show ?thesis
      by (simp add: update_def Let_def showStatus_def setStatus_def)
  next
    case (Some r)
    with assms(6) have "getPrForBranch w dir (Some r) = Some bp"
      by (simp add: repoFor_def)
    with Some assms(1,2,7) usable show ?thesis
      by (simp add: update_def Let_def showStatus_def setStatus_def)
  qed
qed

theorem tick_drops_pin_witness:
  "pinnedPr (update worldBoth ''/work'' 0 (initial\<lparr>pinnedPr := Some pin42\<rparr>)) = None
   \<and> lastPr (update worldBoth ''/work'' 0 (initial\<lparr>pinnedPr := Some pin42\<rparr>)) = Some pr7
   \<and> statusBar (update worldBoth ''/work'' 0 (initial\<lparr>pinnedPr := Some pin42\<rparr>)) 0 STATUS_KEY
     = Some (formatStatus pr7)"
proof -
  let ?s = "initial\<lparr>pinnedPr := Some pin42\<rparr>"
  have pinned: "pinnedPr ?s = Some pin42"
    by simp
  have resolves: "getPrByNumber worldBoth (pin_repo pin42) (pin_number pin42) = Some pr42"
    by (simp add: pin42_def worldBoth_queries)
  have branch: "getBranch worldBoth ''/work'' = Some ''feature''" "''feature'' \<noteq> []"
    "''feature'' \<noteq> ''HEAD''"
    by (simp_all add: worldBoth_queries)
  have own: "getPrForBranch worldBoth ''/work'' (repoFor worldBoth ''/work'' ?s) = Some pr7"
    by (simp add: repoFor_def initial_def worldBoth_queries)
  have "open": "state pr7 = Str ''OPEN''"
    by (simp add: pr7_def)
  from tick_drops_pin [OF pinned resolves branch own "open", of 0] show ?thesis .
qed

text \<open>A tick whose pinned pull request is not found only clears what is shown.\<close>

lemma update_pinned_absent:
  assumes "pinnedPr s = Some pin"
    and "getPrByNumber w (pin_repo pin) (pin_number pin) = None"
  shows "update w dir u s = showStatus None u s"
  using assms by (simp add: update_def)

lemma ticks_pinned_absent:
  assumes "latestCtx s = Some ctx" and "pinnedPr s = Some pin"
    and "\<forall>w\<in>set ws. getPrByNumber w (pin_repo pin) (pin_number pin) = None"
  shows "pinnedPr (ticks ws s) = Some pin \<and> latestCtx (ticks ws s) = Some ctx
    \<and> lastBranch (ticks ws s) = lastBranch s \<and> cachedRepo (ticks ws s) = cachedRepo s
    \<and> (ws \<noteq> [] \<longrightarrow> lastPr (ticks ws s) = None
          \<and> statusBar (ticks ws s) (ui ctx) STATUS_KEY = None)"
  using assms
proof (induction ws arbitrary: s rule: rev_induct)
  case Nil
  then show ?case by (simp add: ticks_def)
next
  case (snoc w ws)
  let ?s = "ticks ws s"
  from snoc have before: "pinnedPr ?s = Some pin" "latestCtx ?s = Some ctx"
    "lastBranch ?s = lastBranch s" "cachedRepo ?s = cachedRepo s"
    by simp_all
  from snoc.prems have absent: "getPrByNumber w (pin_repo pin) (pin_number pin) = None"
    by simp
  have "ticks (ws @ [w]) s = pollTick w ?s"
    by (simp add: ticks_def)
  also have "\<dots> = showStatus None (ui ctx) ?s"
    using before absent by (simp add: pollTick_def update_pinned_absent)
  finally show ?case
    using before by (simp add: showStatus_fields shown_def)
qed

text \<open>
  C10. A tick with a pin whose query finds nothing clears the status and the last pull
  request and leaves the pin (and the branch and the cached repository) as they are.
  So the ticks after it query the same pin again: as long as it is not found they keep
  the pin and show nothing, whatever the branch has.
\<close>

theorem absent_pin_stays:
  assumes "pinnedPr s = Some pin"
    and "getPrByNumber w (pin_repo pin) (pin_number pin) = None"
  shows "pinnedPr (update w dir u s) = Some pin
    \<and> lastPr (update w dir u s) = None
    \<and> statusBar (update w dir u s) u STATUS_KEY = None
    \<and> lastBranch (update w dir u s) = lastBranch s
    \<and> cachedRepo (update w dir u s) = cachedRepo s
    \<and> (\<forall>ctx ws. latestCtx s = Some ctx
          \<and> (\<forall>w'\<in>set ws. getPrByNumber w' (pin_repo pin) (pin_number pin) = None)
        \<longrightarrow> pinnedPr (ticks ws (update w dir u s)) = Some pin
          \<and> lastPr (ticks ws (update w dir u s)) = None)"
proof -
  have upd: "update w dir u s = showStatus None u s"
    using assms by (rule update_pinned_absent)
  have one: "pinnedPr (update w dir u s) = Some pin" "lastPr (update w dir u s) = None"
    "statusBar (update w dir u s) u STATUS_KEY = None"
    "lastBranch (update w dir u s) = lastBranch s" "cachedRepo (update w dir u s) = cachedRepo s"
    using assms(1) by (simp_all add: upd showStatus_fields shown_def)
  have later: "pinnedPr (ticks ws (update w dir u s)) = Some pin
      \<and> lastPr (ticks ws (update w dir u s)) = None"
    if "latestCtx s = Some ctx"
      and "\<forall>w'\<in>set ws. getPrByNumber w' (pin_repo pin) (pin_number pin) = None"
    for ctx ws
  proof -
    have "latestCtx (update w dir u s) = Some ctx"
      using that(1) by (simp add: upd showStatus_fields)
    from ticks_pinned_absent [OF this one(1) that(2)] one(2) show ?thesis
      by (cases "ws = []") (simp_all add: ticks_def)
  qed
  from one later show ?thesis by blast
qed

theorem absent_pin_stays_witness:
  "pinnedPr (update worldBranch ''/work'' 0
       (showStatus (Some pr42) 0 (initial\<lparr>pinnedPr := Some pin42, latestCtx := Some workCtx\<rparr>)))
     = Some pin42
   \<and> lastPr (update worldBranch ''/work'' 0
       (showStatus (Some pr42) 0 (initial\<lparr>pinnedPr := Some pin42, latestCtx := Some workCtx\<rparr>)))
     = None
   \<and> statusBar (update worldBranch ''/work'' 0
       (showStatus (Some pr42) 0 (initial\<lparr>pinnedPr := Some pin42, latestCtx := Some workCtx\<rparr>)))
       0 STATUS_KEY = None
   \<and> pinnedPr (ticks [worldBranch, worldBranch] (update worldBranch ''/work'' 0
       (showStatus (Some pr42) 0 (initial\<lparr>pinnedPr := Some pin42, latestCtx := Some workCtx\<rparr>))))
     = Some pin42
   \<and> lastPr (ticks [worldBranch, worldBranch] (update worldBranch ''/work'' 0
       (showStatus (Some pr42) 0 (initial\<lparr>pinnedPr := Some pin42, latestCtx := Some workCtx\<rparr>))))
     = None
   \<and> getPrForBranch worldBranch ''/work'' (Some ownerRepo) = Some pr7"
proof -
  let ?s = "showStatus (Some pr42) 0 (initial\<lparr>pinnedPr := Some pin42, latestCtx := Some workCtx\<rparr>)"
  have pinned: "pinnedPr ?s = Some pin42"
    by (simp add: showStatus_fields)
  have absent: "getPrByNumber worldBranch (pin_repo pin42) (pin_number pin42) = None"
    by (simp add: pin42_def worldBranch_queries)
  have ctx: "latestCtx ?s = Some workCtx"
    by (simp add: showStatus_fields)
  have later: "\<forall>w'\<in>set [worldBranch, worldBranch].
      getPrByNumber w' (pin_repo pin42) (pin_number pin42) = None"
    using absent by simp
  from absent_pin_stays [OF pinned absent, of "''/work''" 0] ctx later show ?thesis
    by (simp add: worldBranch_queries)
qed

end
